theory Spec2Isabelle
  imports Main "HOL-Library.Char_ord" "HOL-Library.List_Lexorder" "HOL-Library.Multiset"
begin

section \<open>Data model of main.go\<close>

text \<open>
  Go's \<^verbatim>\<open>int\<close> is modelled as \<^typ>\<open>int\<close>. The integers of the program are the cursor,
  slice lengths, the terminal size and the scroll offset, and the only arithmetic is a step
  of one, \<^verbatim>\<open>len - 1\<close>, \<^verbatim>\<open>Height - 2\<close> and sums and differences of an offset, a height and
  a cursor, so no computation comes near the 64-bit bounds.

  The field \<^verbatim>\<open>Update\<close> of a module is the selector \<open>module_Update\<close>, since the method
  \<^verbatim>\<open>Update\<close> of the model has the name \<open>Update\<close>; a \<^verbatim>\<open>nil\<close> pointer is \<open>None\<close>.

  A Go slice can be \<^verbatim>\<open>nil\<close>, and \<^verbatim>\<open>View\<close> tests for it, so a slice is a list
  option with \<open>None\<close> for \<^verbatim>\<open>nil\<close>. A run-time panic is a value of type \<open>panic\<close>.
\<close>

type_synonym error = string

datatype panic = IndexOutOfRange | NilDereference

datatype module =
  Module (Path: string) (Version: string) (module_Update: "module option") (Main: bool) (Indirect: bool)

type_synonym 'a slice = "'a list option"

definition len :: "'a slice \<Rightarrow> int" where
  "len s = (case s of None \<Rightarrow> 0 | Some xs \<Rightarrow> int (length xs))"

definition index :: "'a slice \<Rightarrow> int \<Rightarrow> panic + 'a" where
  "index s i =
     (case s of
        None \<Rightarrow> Inl IndexOutOfRange
      | Some xs \<Rightarrow> if 0 \<le> i \<and> i < int (length xs) then Inr (xs ! nat i) else Inl IndexOutOfRange)"


subsection \<open>The viewport, the spinner and the terminal colours\<close>

text \<open>
  \<^verbatim>\<open>viewport.Model\<close> belongs to the bubbles library, which main.go imports and src/ does
  not hold. main.go reads and writes its fields \<^verbatim>\<open>Width\<close>, \<^verbatim>\<open>Height\<close> and
  \<^verbatim>\<open>YOffset\<close>; \<open>lines\<close> is the content that \<^verbatim>\<open>SetContent\<close> stores.
\<close>

record viewport_Model =
  Width :: int
  Height :: int
  YOffset :: int
  lines :: "string list"

text \<open>The pieces of a string between its newlines, as \<^verbatim>\<open>strings.Split(s, "\n")\<close> cuts it.\<close>

fun split_lines :: "string \<Rightarrow> string list" where
  "split_lines [] = [[]]"
| "split_lines (c # cs) =
     (if c = CHR 0x0A then [] # split_lines cs
      else (case split_lines cs of [] \<Rightarrow> [[c]] | l # ls \<Rightarrow> (c # l) # ls))"

text \<open>
  Modelled from the spec: \<^verbatim>\<open>SetContent\<close> of the viewport is not part of src/. By section 3
  of the spec the viewport is a window into the rendered lines, so \<^verbatim>\<open>SetContent\<close> stores
  the lines of the string it is given.
\<close>

definition SetContent :: "string \<Rightarrow> viewport_Model \<Rightarrow> viewport_Model" where
  "SetContent s v = v\<lparr>lines := split_lines s\<rparr>"

text \<open>
  Modelled from the spec: the scroll operation of the viewport is not part of src/. By
  section 4.3 of the spec, \<^verbatim>\<open>scrollBy(delta)\<close> moves \<^verbatim>\<open>topOffset\<close>, clamped so that the
  window never scrolls past the start of the content or leaves fewer than \<^verbatim>\<open>height\<close>
  lines visible, and the offset stays 0 when the content is shorter than the window.
\<close>

definition scrollBy :: "int \<Rightarrow> viewport_Model \<Rightarrow> viewport_Model" where
  "scrollBy delta v =
     v\<lparr>YOffset := max 0 (min (YOffset v + delta) (int (length (lines v)) - Height v))\<rparr>"

text \<open>
  Modelled from the spec: \<^verbatim>\<open>LineUp(n)\<close> and \<^verbatim>\<open>LineDown(n)\<close> of the viewport are not part
  of src/. By section 4.1 of the spec main.go uses them to scroll by \<open>n\<close> lines in the one
  and in the other direction: they are \<open>scrollBy\<close> by \<open>- n\<close> and by \<open>n\<close>.
\<close>

definition LineUp :: "int \<Rightarrow> viewport_Model \<Rightarrow> viewport_Model" where
  "LineUp n v = scrollBy (- n) v"

definition LineDown :: "int \<Rightarrow> viewport_Model \<Rightarrow> viewport_Model" where
  "LineDown n v = scrollBy n v"

text \<open>
  Messages and commands. A \<^verbatim>\<open>tea.KeyMsg\<close> is modelled by the string that its
  \<^verbatim>\<open>String()\<close> method returns; \<open>otherMsg\<close> stands for every message type that the
  switch of \<^verbatim>\<open>Update\<close> does not name. A \<^verbatim>\<open>tea.Cmd\<close> is a description of the
  asynchronous task; a \<^verbatim>\<open>nil\<close> command is \<open>None\<close>.
\<close>

datatype msg =
  errMsg error
| modulesMsg "module slice"
| updatedMsg "module slice"
| KeyMsg string
| spinner_TickMsg
| WindowSizeMsg int int
| otherMsg

datatype cmd = Quit | updateCmd module | loadCmd | spinner_Tick | Batch "cmd list"

text \<open>
  The remaining library functions that main.go calls only produce strings or advance the
  spinner. They are parameters of the model: \<open>'s\<close> is \<^verbatim>\<open>spinner.Model\<close>, \<open>'c\<close> is
  \<^verbatim>\<open>termenv.Profile\<close>, and \<open>Foreground L p c s\<close> is the string \<open>s\<close> styled with the
  colour \<open>c\<close> of the profile \<open>p\<close>.
\<close>

record ('s, 'c) bubbles =
  spinner_NewModel :: 's
  set_ForegroundColor :: "string \<Rightarrow> 's \<Rightarrow> 's"
  spinner_Update :: "'s \<Rightarrow> 's \<times> cmd option"
  spinner_View :: "'s \<Rightarrow> string"
  viewport_View :: "viewport_Model \<Rightarrow> string"
  ColorProfile :: 'c
  Foreground :: "'c \<Rightarrow> string \<Rightarrow> string \<Rightarrow> string"

subsection \<open>The model\<close>

record ('s, 'c) model =
  spinner :: 's
  viewport :: viewport_Model
  color :: 'c
  builder :: string
  ready :: bool
  modules :: "module slice"
  cursor :: int
  updating :: bool
  err :: "error option"

definition newModel :: "('s, 'c) bubbles \<Rightarrow> ('s, 'c) model" where
  "newModel L =
     \<lparr>spinner = set_ForegroundColor L ''2'' (spinner_NewModel L),
      viewport = \<lparr>Width = 0, Height = 0, YOffset = 0, lines = []\<rparr>,
      color = ColorProfile L,
      builder = [],
      ready = False,
      modules = None,
      cursor = 0,
      updating = False,
      err = None\<rparr>"

definition Init :: "('s, 'c) model \<Rightarrow> cmd option" where
  "Init m = Some (Batch [spinner_Tick, loadCmd])"

section \<open>Cursor and viewport reconciliation\<close>

definition fixCursor :: "('s, 'c) model \<Rightarrow> ('s, 'c) model" where
  "fixCursor m =
     (if cursor m > len (modules m) - 1 then m\<lparr>cursor := 0\<rparr>
      else if cursor m < 0 then m\<lparr>cursor := len (modules m) - 1\<rparr>
      else m)"

definition fixViewport :: "bool \<Rightarrow> ('s, 'c) model \<Rightarrow> ('s, 'c) model" where
  "fixViewport moveCursor m =
     (let top = YOffset (viewport m);
          bottom = Height (viewport m) + YOffset (viewport m) - 1
      in if moveCursor then
           (if cursor m < top then m\<lparr>cursor := top\<rparr>
            else if cursor m > bottom then m\<lparr>cursor := bottom\<rparr>
            else m)
         else if cursor m < top then m\<lparr>viewport := LineUp (top - cursor m) (viewport m)\<rparr>
         else if cursor m > bottom then m\<lparr>viewport := LineDown (cursor m - bottom) (viewport m)\<rparr>
         else m)"

section \<open>The state transition\<close>

fun Update ::
  "('s, 'c) bubbles \<Rightarrow> msg \<Rightarrow> ('s, 'c) model \<Rightarrow> panic + (('s, 'c) model \<times> cmd option)"
where
  "Update L (errMsg e) m = Inr (m\<lparr>err := Some e\<rparr>, Some Quit)"
| "Update L (modulesMsg ms) m = Inr (m\<lparr>modules := ms\<rparr>, None)"
| "Update L (updatedMsg ms) m = Inr (m\<lparr>updating := False, modules := ms\<rparr>, None)"
| "Update L (KeyMsg k) m =
     (if k = ''ctrl+c'' \<or> k = ''q'' then Inr (m, Some Quit)
      else if k = ''enter'' then
        (if \<not> updating m then
           (case index (modules m) (cursor m) of
              Inl p \<Rightarrow> Inl p
            | Inr x \<Rightarrow> Inr (m\<lparr>updating := True\<rparr>, Some (updateCmd x)))
         else Inr (m, None))
      else if k = ''down'' \<or> k = ''j'' then
        (if \<not> updating m then
           Inr (fixViewport False (fixCursor (m\<lparr>cursor := cursor m + 1\<rparr>)), None)
         else Inr (m, None))
      else if k = ''up'' \<or> k = ''k'' then
        (if \<not> updating m then
           Inr (fixViewport False (fixCursor (m\<lparr>cursor := cursor m - 1\<rparr>)), None)
         else Inr (m, None))
      else if k = ''pgup'' \<or> k = ''u'' then
        (if \<not> updating m then
           Inr (fixViewport True (m\<lparr>viewport := LineUp 1 (viewport m)\<rparr>), None)
         else Inr (m, None))
      else if k = ''pgdown'' \<or> k = ''d'' then
        (if \<not> updating m then
           Inr (fixViewport True (m\<lparr>viewport := LineDown 1 (viewport m)\<rparr>), None)
         else Inr (m, None))
      else Inr (m, None))"
| "Update L spinner_TickMsg m =
     (case spinner_Update L (spinner m) of (s, c) \<Rightarrow> Inr (m\<lparr>spinner := s\<rparr>, c))"
| "Update L (WindowSizeMsg w h) m =
     (if \<not> ready m then
        Inr (m\<lparr>viewport := \<lparr>Width = w, Height = h - 2, YOffset = 0, lines = []\<rparr>,
                ready := True\<rparr>, None)
      else
        Inr (fixViewport True (m\<lparr>viewport := (viewport m)\<lparr>Width := w, Height := h - 2\<rparr>\<rparr>),
             None))"
| "Update L otherMsg m = Inr (m, None)"


section \<open>Rendering\<close>

text \<open>\<^verbatim>\<open>fmt.Sprintf("%d", i)\<close>: the decimal digits of an integer.\<close>

fun digits :: "nat \<Rightarrow> string" where
  "digits n = (if n < 10 then [char_of (48 + n)] else digits (n div 10) @ [char_of (48 + n mod 10)])"

definition itoa :: "int \<Rightarrow> string" where
  "itoa i = (if i < 0 then CHR ''-'' # digits (nat (- i)) else digits (nat i))"

text \<open>
  The loop of \<^verbatim>\<open>content\<close> over \<^verbatim>\<open>m.modules\<close>: \<open>i\<close> is the index of the first
  remaining module and \<open>b\<close> the text written to \<^verbatim>\<open>m.builder\<close> so far. Reading
  \<^verbatim>\<open>module.Update.Version\<close> of a module without an update dereferences \<^verbatim>\<open>nil\<close>.
\<close>

fun content_loop ::
  "('s, 'c) bubbles \<Rightarrow> ('s, 'c) model \<Rightarrow> int \<Rightarrow> module list \<Rightarrow> string \<Rightarrow> panic + string"
where
  "content_loop L m i [] b = Inr b"
| "content_loop L m i (x # xs) b =
     (let cursor_s =
            (if cursor m = i then
               (if updating m then spinner_View L (spinner m)
                else Foreground L (color m) ''1'' ''>'')
             else '' '');
          indirect = (if Indirect x then ''// indirect'' else [])
      in case module_Update x of
           None \<Rightarrow> Inl NilDereference
         | Some u \<Rightarrow>
             content_loop L m (i + 1) xs
               (b @ cursor_s @ '' '' @ Path x @ '' ['' @ Version x @ '' -> '' @ Version u
                  @ ''] '' @ indirect @ [CHR 0x0A]))"

text \<open>
  \<^verbatim>\<open>content\<close> returns what the builder holds after the loop, and its deferred
  \<^verbatim>\<open>Reset\<close> empties the builder.
\<close>

definition content :: "('s, 'c) bubbles \<Rightarrow> ('s, 'c) model \<Rightarrow> panic + (string \<times> ('s, 'c) model)" where
  "content L m =
     (case content_loop L m 0 (case modules m of None \<Rightarrow> [] | Some xs \<Rightarrow> xs) (builder m) of
        Inl p \<Rightarrow> Inl p
      | Inr s \<Rightarrow> Inr (s, m\<lparr>builder := []\<rparr>))"

definition Sprintf_view :: "string \<Rightarrow> string \<Rightarrow> string \<Rightarrow> string" where
  "Sprintf_view header body footer = header @ [CHR 0x0A] @ body @ [CHR 0x0A] @ footer"

text \<open>
  \<^verbatim>\<open>View\<close> has a pointer receiver and calls \<^verbatim>\<open>m.viewport.SetContent\<close>, so it returns
  the model next to the string.
\<close>

definition View :: "('s, 'c) bubbles \<Rightarrow> ('s, 'c) model \<Rightarrow> panic + (string \<times> ('s, 'c) model)" where
  "View L m =
     (let footer = ''(press 'q' to quit)'' in
      if \<not> ready m \<or> modules m = None then
        Inr (Sprintf_view (spinner_View L (spinner m) @ '' Loading...'') [] footer, m)
      else if len (modules m) = 0 then
        Inr (Sprintf_view ''All modules are up-to-date'' [] footer, m)
      else
        (let header = ''Press enter to update ['' @ itoa (cursor m + 1) @ ''/''
                        @ itoa (len (modules m)) @ '']''
         in case content L m of
              Inl p \<Rightarrow> Inl p
            | Inr (c, m1) \<Rightarrow>
                (let m2 = m1\<lparr>viewport := SetContent c (viewport m1)\<rparr>
                 in Inr (Sprintf_view header (viewport_View L (viewport m2)) footer, m2))))"

section \<open>Loading the module list\<close>

text \<open>
  The output of \<^verbatim>\<open>go list -m -u -json all\<close> and its JSON decoder are outside the
  program. \<^verbatim>\<open>cmd.Output()\<close> either fails or gives the output, and the decoder turns
  the output into the sequence of results that the successive \<^verbatim>\<open>dec.Decode\<close> calls
  return before \<^verbatim>\<open>io.EOF\<close>: a decoded record, or a decoding error.
\<close>

type_synonym go_list = "error + (error + module) list"

fun load_loop :: "(error + module) list \<Rightarrow> module list \<Rightarrow> error + module list" where
  "load_loop [] acc = Inr acc"
| "load_loop (Inl e # ds) acc = Inl e"
| "load_loop (Inr m # ds) acc =
     load_loop ds (if \<not> Main m \<and> module_Update m \<noteq> None then acc @ [m] else acc)"

definition less_module :: "module \<Rightarrow> module \<Rightarrow> bool" where
  "less_module a b =
     (if Indirect a \<and> \<not> Indirect b then False
      else if \<not> Indirect a \<and> Indirect b then True
      else Path a < Path b)"

text \<open>
  \<^verbatim>\<open>sort.Slice\<close> belongs to Go's standard library. It sorts by the given \<^verbatim>\<open>less\<close> and
  promises no order among elements that compare equal. The model is insertion sort; the
  properties proved of it below hold of every permutation that is sorted by \<^verbatim>\<open>less\<close>.
\<close>

fun insert_by :: "('a \<Rightarrow> 'a \<Rightarrow> bool) \<Rightarrow> 'a \<Rightarrow> 'a list \<Rightarrow> 'a list" where
  "insert_by lt x [] = [x]"
| "insert_by lt x (y # ys) = (if lt x y then x # y # ys else y # insert_by lt x ys)"

definition sort_Slice :: "('a \<Rightarrow> 'a \<Rightarrow> bool) \<Rightarrow> 'a list \<Rightarrow> 'a list" where
  "sort_Slice lt xs = foldr (insert_by lt) xs []"

definition load :: "go_list \<Rightarrow> module slice \<times> error option" where
  "load out =
     (case out of
        Inl e \<Rightarrow> (None, Some e)
      | Inr ds \<Rightarrow>
          (case load_loop ds [] of
             Inl e \<Rightarrow> (None, Some e)
           | Inr ms \<Rightarrow> (Some (sort_Slice less_module ms), None)))"

text \<open>
  The closures that \<^verbatim>\<open>loadCmd\<close> and \<^verbatim>\<open>updateCmd\<close> return, run against the outside
  world: \<open>go_get\<close> is the result of \<^verbatim>\<open>go get -u path@version\<close> for the argument it is
  given, \<open>out\<close> what the listing gives.
\<close>

definition run_loadCmd :: "go_list \<Rightarrow> msg" where
  "run_loadCmd out =
     (case load out of
        (ms, Some e) \<Rightarrow> errMsg e
      | (ms, None) \<Rightarrow> modulesMsg ms)"

definition run_updateCmd :: "(string \<Rightarrow> error option) \<Rightarrow> go_list \<Rightarrow> module \<Rightarrow> panic + msg" where
  "run_updateCmd go_get out m =
     (case module_Update m of
        None \<Rightarrow> Inl NilDereference
      | Some u \<Rightarrow>
          (case go_get (Path u @ ''@'' @ Version u) of
             Some e \<Rightarrow> Inr (errMsg e)
           | None \<Rightarrow>
               (case load out of
                  (ms, Some e) \<Rightarrow> Inr (errMsg e)
                | (ms, None) \<Rightarrow> Inr (updatedMsg ms))))"


section \<open>The event loop and the exit of the process\<close>

text \<open>
  Modelled from the spec: the event loop (\<^verbatim>\<open>tea.Program.Start\<close> of the bubbletea library)
  is not part of src/. By sections 4.1 and 5 of the spec it is single-threaded, processes
  the events of one ordered stream strictly in arrival order, dispatches each to the
  transition function, re-renders after every event, and terminates when the transition
  signals termination. \<open>run\<close> returns the frames rendered and how the loop ended:
  still waiting for events, terminated by \<^verbatim>\<open>tea.Quit\<close>, or crashed by a panic.
\<close>

datatype ('s, 'c) ended = Waiting "('s, 'c) model" | Quitted "('s, 'c) model" | Crashed panic

fun run ::
  "('s, 'c) bubbles \<Rightarrow> msg list \<Rightarrow> ('s, 'c) model \<Rightarrow> string list \<times> ('s, 'c) ended"
where
  "run L [] m = ([], Waiting m)"
| "run L (e # es) m =
     (case Update L e m of
        Inl p \<Rightarrow> ([], Crashed p)
      | Inr (m1, c) \<Rightarrow>
          if c = Some Quit then ([], Quitted m1)
          else
            (case View L m1 of
               Inl p \<Rightarrow> ([], Crashed p)
             | Inr (s, m2) \<Rightarrow> (case run L es m2 of (fs, r) \<Rightarrow> (s # fs, r))))"

text \<open>
  \<^verbatim>\<open>main\<close>: \<open>start\<close> is the error that \<^verbatim>\<open>p.Start()\<close> itself may return instead of
  running the loop. \<^verbatim>\<open>log.Fatalln\<close> prints its argument and exits with status 1; a
  return from \<^verbatim>\<open>main\<close> exits with status 0; a panic ends the process with status 2.
  The result is \<open>None\<close> while the loop waits for further events.
\<close>

datatype exit = Return | Fatalln error | Panicked panic

definition main :: "('s, 'c) bubbles \<Rightarrow> error option \<Rightarrow> msg list \<Rightarrow> exit option" where
  "main L start evs =
     (case start of
        Some e \<Rightarrow> Some (Fatalln e)
      | None \<Rightarrow>
          (case run L evs (newModel L) of
             (fs, Waiting m) \<Rightarrow> None
           | (fs, Crashed p) \<Rightarrow> Some (Panicked p)
           | (fs, Quitted m) \<Rightarrow>
               (case err m of Some e \<Rightarrow> Some (Fatalln e) | None \<Rightarrow> Some Return)))"

fun exit_status :: "exit \<Rightarrow> nat" where
  "exit_status Return = 0"
| "exit_status (Fatalln e) = 1"
| "exit_status (Panicked p) = 2"

fun printed :: "exit \<Rightarrow> error option" where
  "printed (Fatalln e) = Some e"
| "printed Return = None"
| "printed (Panicked p) = None"

section \<open>An instance of the library parameters\<close>

text \<open>
  The concrete examples below run the model with this instance: the spinner is a frame
  counter over four frames, the colour profile has no colours, and the viewport renders
  the lines of its window joined by newlines.
\<close>

definition window :: "viewport_Model \<Rightarrow> string list" where
  "window v = take (nat (Height v)) (drop (nat (YOffset v)) (lines v))"

fun join_lines :: "string list \<Rightarrow> string" where
  "join_lines [] = []"
| "join_lines [l] = l"
| "join_lines (l # ls) = l @ [CHR 0x0A] @ join_lines ls"

definition ascii :: "(nat, unit) bubbles" where
  "ascii =
     \<lparr>spinner_NewModel = 0,
      set_ForegroundColor = (\<lambda>c s. s),
      spinner_Update = (\<lambda>s. ((s + 1) mod 4, Some spinner_Tick)),
      spinner_View = (\<lambda>s. [''|/-+'' ! (s mod 4)]),
      viewport_View = (\<lambda>v. join_lines (window v)),
      ColorProfile = (),
      Foreground = (\<lambda>p c s. s)\<rparr>"

definition mod_a :: module where
  "mod_a = Module ''a'' ''v1.0.0'' (Some (Module ''a'' ''v1.1.0'' None False False)) False False"

definition mod_b :: module where
  "mod_b = Module ''b'' ''v0.2.0'' (Some (Module ''b'' ''v0.3.0'' None False False)) False False"

definition mod_c :: module where
  "mod_c = Module ''c'' ''v2.0.0'' (Some (Module ''c'' ''v2.0.1'' None False True)) False True"


text \<open>
  \<open>demo\<close> is the state after a window of 80 by 4, the load of three modules and the
  render that follows each event (lemma \<open>demo_reached\<close> below).
\<close>

definition demo :: "(nat, unit) model" where
  "demo =
     (newModel ascii)
       \<lparr>viewport :=
          \<lparr>Width = 80, Height = 2, YOffset = 0,
           lines = [''> a [v1.0.0 -> v1.1.0] '', ''  b [v0.2.0 -> v0.3.0] '',
                    ''  c [v2.0.0 -> v2.0.1] // indirect'', []]\<rparr>,
        ready := True,
        modules := Some [mod_a, mod_b, mod_c]\<rparr>"

text \<open>
  \<open>loaded\<close> is the state one step earlier, after the \<^verbatim>\<open>modulesMsg\<close> and before its render:
  the viewport has no content yet. \<open>loaded_none\<close> is the rendered state after a load that
  found nothing to update.
\<close>

definition loaded :: "(nat, unit) model" where
  "loaded = demo\<lparr>viewport := (viewport demo)\<lparr>lines := []\<rparr>\<rparr>"

definition loaded_none :: "(nat, unit) model" where
  "loaded_none =
     (newModel ascii)
       \<lparr>viewport := \<lparr>Width = 80, Height = 2, YOffset = 0, lines = []\<rparr>,
        ready := True,
        modules := Some []\<rparr>"

section \<open>Notions used in the statements\<close>

text \<open>
  The records that the decoder delivers, the test by which \<^verbatim>\<open>load\<close> keeps a record, and
  the direct modules.
\<close>

definition decoded :: "(error + module) list \<Rightarrow> module list" where
  "decoded ds = concat (map (\<lambda>d. case d of Inl e \<Rightarrow> [] | Inr m \<Rightarrow> [m]) ds)"

definition kept :: "module \<Rightarrow> bool" where
  "kept m = (\<not> Main m \<and> module_Update m \<noteq> None)"

definition direct :: "module \<Rightarrow> bool" where
  "direct m = (\<not> Indirect m)"

text \<open>The cursor line lies in the window of the viewport.\<close>

definition visible :: "('s, 'c) model \<Rightarrow> bool" where
  "visible m =
     (YOffset (viewport m) \<le> cursor m \<and> cursor m \<le> YOffset (viewport m) + Height (viewport m) - 1)"

text \<open>
  The messages that carry a module list, and the messages as \<^verbatim>\<open>loadCmd\<close> and
  \<^verbatim>\<open>updateCmd\<close> produce them: the list of a \<^verbatim>\<open>modulesMsg\<close> or an \<^verbatim>\<open>updatedMsg\<close> comes
  from a successful \<^verbatim>\<open>load\<close>.
\<close>

definition carries_list :: "msg \<Rightarrow> bool" where
  "carries_list e = (case e of modulesMsg ms \<Rightarrow> True | updatedMsg ms \<Rightarrow> True | _ \<Rightarrow> False)"

definition from_load :: "msg \<Rightarrow> bool" where
  "from_load e = (case e of modulesMsg ms \<Rightarrow> ms \<noteq> None | updatedMsg ms \<Rightarrow> ms \<noteq> None | _ \<Rightarrow> True)"

text \<open>The cursor, the offset and the height of the window in the state a run ended with.\<close>

definition cursor_and_window :: "('s, 'c) ended \<Rightarrow> (int \<times> int \<times> int) option" where
  "cursor_and_window r =
     (case r of
        Waiting m \<Rightarrow> Some (cursor m, YOffset (viewport m), Height (viewport m))
      | Quitted m \<Rightarrow> Some (cursor m, YOffset (viewport m), Height (viewport m))
      | Crashed p \<Rightarrow> None)"

section \<open>The cursor\<close>

lemma len_Some: "len (Some xs) = int (length xs)"
  by (simp add: len_def)

lemma len_None: "len None = 0"
  by (simp add: len_def)

lemma cursor_fixViewport_False: "cursor (fixViewport False m) = cursor m"
  by (simp add: fixViewport_def Let_def)

lemma modules_fixViewport: "modules (fixViewport b m) = modules m"
  by (simp add: fixViewport_def Let_def)

lemma modules_fixCursor: "modules (fixCursor m) = modules m"
  by (simp add: fixCursor_def)

text \<open>
  C1 (the code departs from the claim). With \<^verbatim>\<open>updating\<close> false, the \<^verbatim>\<open>"enter"\<close> branch
  of \<^verbatim>\<open>Update\<close> reads \<^verbatim>\<open>m.modules[m.cursor]\<close> without looking at the length of the list.
  On the model as \<^verbatim>\<open>newModel\<close> builds it (list not yet loaded) and on a loaded, empty list,
  pressing enter is not a no-op: the index is out of range and the program panics, also
  when the key arrives through the event loop.
\<close>

theorem enter_on_empty_list_panics:
  "Update ascii (KeyMsg ''enter'') (newModel ascii) = Inl IndexOutOfRange
   \<and> Update ascii (KeyMsg ''enter'') ((newModel ascii)\<lparr>modules := Some []\<rparr>) = Inl IndexOutOfRange
   \<and> main ascii None [WindowSizeMsg 80 4, KeyMsg ''enter''] = Some (Panicked IndexOutOfRange)
   \<and> main ascii None [WindowSizeMsg 80 4, modulesMsg (Some []), KeyMsg ''enter'']
       = Some (Panicked IndexOutOfRange)"
  by code_simp

text \<open>
  C2 (the code departs from the claim). \<^verbatim>\<open>Update\<close> stores the list of an
  \<^verbatim>\<open>updatedMsg\<close> (and of a \<^verbatim>\<open>modulesMsg\<close>) without calling \<^verbatim>\<open>fixCursor\<close>. With the
  cursor on the last of two modules, the reload after the update returns the one module
  that is left: the cursor stays 1 while the list has length 1. In the run of the last
  conjunct the user moves to the second module, updates it, and presses enter again: the
  index is out of range.
\<close>

theorem shorter_list_leaves_cursor_out_of_range:
  "Update ascii (updatedMsg (Some [mod_a]))
     ((newModel ascii)\<lparr>modules := Some [mod_a, mod_b], cursor := 1, updating := True\<rparr>)
   = Inr ((newModel ascii)\<lparr>modules := Some [mod_a], cursor := 1, updating := False\<rparr>, None)
   \<and> len (Some [mod_a]) = 1
   \<and> main ascii None
         [WindowSizeMsg 80 4, modulesMsg (Some [mod_a, mod_b]), KeyMsg ''down'', KeyMsg ''enter'',
          updatedMsg (Some [mod_a]), KeyMsg ''enter'']
       = Some (Panicked IndexOutOfRange)"
  by code_simp

text \<open>
  C3 (amended). For a non-empty list of length \<open>n\<close>, \<^verbatim>\<open>fixCursor\<close> returns a cursor in
  \<open>[0, n - 1]\<close>: 0 when the cursor is above \<open>n - 1\<close>, \<open>n - 1\<close> when it is negative, and the
  cursor itself otherwise. This is the cursor modulo \<open>n\<close> for every cursor from \<open>- 1\<close> to
  \<open>n\<close>, the values one step away from a valid index.
\<close>

theorem fixCursor_wraps_one_step:
  "0 < len (modules m) \<Longrightarrow>
     0 \<le> cursor (fixCursor m) \<and> cursor (fixCursor m) \<le> len (modules m) - 1
     \<and> (cursor m > len (modules m) - 1 \<longrightarrow> cursor (fixCursor m) = 0)
     \<and> (cursor m < 0 \<longrightarrow> cursor (fixCursor m) = len (modules m) - 1)
     \<and> (- 1 \<le> cursor m \<and> cursor m \<le> len (modules m)
          \<longrightarrow> cursor (fixCursor m) = cursor m mod len (modules m))"
proof -
  assume pos: "0 < len (modules m)"
  let ?n = "len (modules m)"
  have wrap: "cursor (fixCursor m) = cursor m mod ?n"
    if r: "- 1 \<le> cursor m \<and> cursor m \<le> ?n"
  proof -
    consider "cursor m = - 1" | "cursor m = ?n" | "0 \<le> cursor m" "cursor m < ?n"
      using r by linarith
    then show ?thesis
    proof cases
      case 1
      have "(- 1) mod ?n = ?n - 1"
        using pos by (simp add: zmod_minus1)
      with 1 pos show ?thesis by (simp add: fixCursor_def)
    next
      case 2
      then show ?thesis by (simp add: fixCursor_def)
    next
      case 3
      then show ?thesis by (simp add: fixCursor_def)
    qed
  qed
  have range: "0 \<le> cursor (fixCursor m) \<and> cursor (fixCursor m) \<le> ?n - 1"
    using pos by (simp add: fixCursor_def)
  have high: "cursor m > ?n - 1 \<longrightarrow> cursor (fixCursor m) = 0"
    by (simp add: fixCursor_def)
  have low: "cursor m < 0 \<longrightarrow> cursor (fixCursor m) = ?n - 1"
    using pos by (simp add: fixCursor_def)
  from range high low wrap show ?thesis by blast
qed

text \<open>The step below index 0 of a list of three: \<open>- 1\<close> becomes \<open>2 = - 1 mod 3\<close>.\<close>

theorem fixCursor_wraps_one_step_witness:
  "0 < len (modules ((newModel ascii)\<lparr>modules := Some [mod_a, mod_b, mod_c], cursor := - 1\<rparr>))
   \<and> cursor (fixCursor ((newModel ascii)\<lparr>modules := Some [mod_a, mod_b, mod_c], cursor := - 1\<rparr>)) = 2
   \<and> (- 1 :: int) mod 3 = 2"
  using fixCursor_wraps_one_step
    [of "(newModel ascii)\<lparr>modules := Some [mod_a, mod_b, mod_c], cursor := - 1\<rparr>"]
  by (simp add: len_def)

text \<open>
  The claim as stated fails two steps past the end: with three modules and cursor 4,
  \<^verbatim>\<open>fixCursor\<close> gives 0, and \<open>4 mod 3\<close> is 1.
\<close>

theorem fixCursor_not_modular_counterexample:
  "cursor (fixCursor ((newModel ascii)\<lparr>modules := Some [mod_a, mod_b, mod_c], cursor := 4\<rparr>)) = 0
   \<and> (4 :: int) mod len (Some [mod_a, mod_b, mod_c]) = 1"
  by (simp add: fixCursor_def len_def)

text \<open>
  C7. For a non-empty list, a \<^verbatim>\<open>"down"\<close> or \<^verbatim>\<open>"j"\<close> key with the cursor on the last
  index moves it to 0 and an \<^verbatim>\<open>"up"\<close> or \<^verbatim>\<open>"k"\<close> key with the cursor on 0 moves it to
  the last index (the keys move the cursor while no update is running), and with a single
  module \<^verbatim>\<open>"down"\<close> leaves the cursor at 0, whether an update is running or not.
\<close>

theorem cursor_wraps_at_the_ends:
  "modules m = Some ms \<Longrightarrow> ms \<noteq> [] \<Longrightarrow> k \<in> {''down'', ''j''} \<Longrightarrow> k' \<in> {''up'', ''k''} \<Longrightarrow>
     (\<not> updating m \<and> cursor m = int (length ms) - 1 \<longrightarrow>
        (\<exists>m'. Update L (KeyMsg k) m = Inr (m', None) \<and> cursor m' = 0))
     \<and> (\<not> updating m \<and> cursor m = 0 \<longrightarrow>
        (\<exists>m'. Update L (KeyMsg k') m = Inr (m', None) \<and> cursor m' = int (length ms) - 1))
     \<and> (length ms = 1 \<and> cursor m = 0 \<longrightarrow>
        (\<exists>m'. Update L (KeyMsg k) m = Inr (m', None) \<and> cursor m' = 0))"
  by (auto simp add: cursor_fixViewport_False fixCursor_def len_def)

theorem cursor_wraps_at_the_ends_witness:
  "\<not> updating ((newModel ascii)\<lparr>modules := Some [mod_a]\<rparr>)
   \<and> cursor ((newModel ascii)\<lparr>modules := Some [mod_a]\<rparr>) = 0
   \<and> (\<exists>m'. Update ascii (KeyMsg ''down'') ((newModel ascii)\<lparr>modules := Some [mod_a]\<rparr>) = Inr (m', None)
          \<and> cursor m' = 0)
   \<and> (\<exists>m'. Update ascii (KeyMsg ''up'') ((newModel ascii)\<lparr>modules := Some [mod_a]\<rparr>) = Inr (m', None)
          \<and> cursor m' = 0)"
  using cursor_wraps_at_the_ends
    [of "(newModel ascii)\<lparr>modules := Some [mod_a]\<rparr>" "[mod_a]" "''down''" "''up''" ascii]
  by (simp add: newModel_def)

section \<open>The order of the loaded list\<close>

lemma load_loop_Inr:
  "load_loop ds acc = Inr ms \<Longrightarrow> ms = acc @ filter kept (decoded ds)"
proof (induction ds acc rule: load_loop.induct)
  case (1 acc)
  then show ?case by (simp add: decoded_def)
next
  case (2 e ds acc)
  then show ?case by simp
next
  case (3 m ds acc)
  then show ?case by (simp add: decoded_def kept_def)
qed

lemma less_module_asym: "less_module a b \<Longrightarrow> \<not> less_module b a"
  by (auto simp add: less_module_def split: if_splits)

lemma less_module_trans: "less_module a b \<Longrightarrow> less_module b c \<Longrightarrow> less_module a c"
  by (auto simp add: less_module_def split: if_splits)

lemma mset_insert_by: "mset (insert_by lt x ys) = add_mset x (mset ys)"
  by (induction ys) auto

lemma mset_sort_Slice: "mset (sort_Slice lt xs) = mset xs"
  by (induction xs) (auto simp add: sort_Slice_def mset_insert_by)

lemma set_insert_by: "set (insert_by lt x ys) = insert x (set ys)"
  by (induction ys) auto

lemma sorted_insert_by:
  "sorted_wrt (\<lambda>a b. \<not> less_module b a) ys \<Longrightarrow>
   sorted_wrt (\<lambda>a b. \<not> less_module b a) (insert_by less_module x ys)"
proof (induction ys)
  case Nil
  then show ?case by simp
next
  case (Cons y ys)
  show ?case
  proof (cases "less_module x y")
    case True
    have "\<not> less_module z x" if "z \<in> set (y # ys)" for z
    proof
      assume "less_module z x"
      then have "less_module z y" using True by (rule less_module_trans)
      with that Cons.prems True show False
        by (auto dest: less_module_asym)
    qed
    with True Cons.prems show ?thesis by simp
  next
    case False
    with Cons show ?thesis by (auto simp add: set_insert_by)
  qed
qed

lemma sorted_sort_Slice:
  "sorted_wrt (\<lambda>a b. \<not> less_module b a) (sort_Slice less_module xs)"
  by (induction xs) (auto simp add: sort_Slice_def sorted_insert_by)

lemma sorted_by_less_module_groups:
  "sorted_wrt (\<lambda>a b. \<not> less_module b a) ys \<Longrightarrow>
     ys = filter direct ys @ filter Indirect ys
     \<and> sorted (map Path (filter direct ys))
     \<and> sorted (map Path (filter Indirect ys))"
proof (induction ys)
  case Nil
  then show ?case by simp
next
  case (Cons y ys)
  from Cons.prems have later: "\<forall>z \<in> set ys. \<not> less_module z y"
    and rest: "sorted_wrt (\<lambda>a b. \<not> less_module b a) ys"
    by simp_all
  from Cons.IH [OF rest] have split: "ys = filter direct ys @ filter Indirect ys"
    and sd: "sorted (map Path (filter direct ys))"
    and si: "sorted (map Path (filter Indirect ys))"
    by simp_all
  show ?case
  proof (cases "Indirect y")
    case True
    have all_ind: "\<forall>z \<in> set ys. Indirect z"
    proof (rule ballI, rule ccontr)
      fix z assume z: "z \<in> set ys" and "\<not> Indirect z"
      with True have "less_module z y" by (simp add: less_module_def)
      with later z show False by blast
    qed
    then have "filter direct ys = []" and "filter Indirect ys = ys"
      by (simp_all add: direct_def filter_empty_conv)
    moreover have "\<forall>z \<in> set ys. Path y \<le> Path z"
      using later True all_ind by (auto simp add: less_module_def not_less)
    moreover have "\<not> direct y"
      using True by (simp add: direct_def)
    ultimately show ?thesis
      using True si by simp
  next
    case False
    have "\<forall>z \<in> set (filter direct ys). Path y \<le> Path z"
      using later False by (auto simp add: less_module_def direct_def not_less)
    moreover have "direct y"
      using False by (simp add: direct_def)
    ultimately show ?thesis
      using False sd si split by simp
  qed
qed

text \<open>
  C4. The list that a successful \<^verbatim>\<open>load\<close> returns is its direct modules followed by its
  indirect modules, the paths of each group are in non-decreasing lexicographic order, and
  the list is a permutation of the decoded records that are not the main module and have an
  update.
\<close>

theorem load_sorted_direct_first:
  "load out = (Some ys, None) \<Longrightarrow>
     ys = filter direct ys @ filter Indirect ys
     \<and> sorted (map Path (filter direct ys))
     \<and> sorted (map Path (filter Indirect ys))
     \<and> (\<exists>ds. out = Inr ds \<and> mset ys = mset (filter kept (decoded ds)))"
proof -
  assume ld: "load out = (Some ys, None)"
  then obtain ds ms where out: "out = Inr ds" and loop: "load_loop ds [] = Inr ms"
    and ys: "ys = sort_Slice less_module ms"
    by (auto simp add: load_def split: sum.splits)
  from loop have "ms = filter kept (decoded ds)"
    by (auto dest: load_loop_Inr)
  with ys have perm: "mset ys = mset (filter kept (decoded ds))"
    by (simp add: mset_sort_Slice)
  have "sorted_wrt (\<lambda>a b. \<not> less_module b a) ys"
    unfolding ys by (rule sorted_sort_Slice)
  from sorted_by_less_module_groups [OF this] out perm show ?thesis
    by blast
qed

theorem load_sorted_direct_first_witness:
  "load (Inr [Inr mod_c, Inr mod_b, Inr (Module ''m'' ''v0.1.0'' None True False), Inr mod_a])
     = (Some [mod_a, mod_b, mod_c], None)
   \<and> [mod_a, mod_b, mod_c] = filter direct [mod_a, mod_b, mod_c] @ filter Indirect [mod_a, mod_b, mod_c]
   \<and> sorted (map Path (filter direct [mod_a, mod_b, mod_c]))
   \<and> sorted (map Path (filter Indirect [mod_a, mod_b, mod_c]))"
proof -
  have ld: "load (Inr [Inr mod_c, Inr mod_b, Inr (Module ''m'' ''v0.1.0'' None True False), Inr mod_a])
     = (Some [mod_a, mod_b, mod_c], None)"
    by (simp add: load_def sort_Slice_def less_module_def mod_a_def mod_b_def mod_c_def)
  from ld load_sorted_direct_first [OF ld] show ?thesis
    by blast
qed


section \<open>Scrolling\<close>

lemma demo_reached:
  "snd (run ascii [WindowSizeMsg 80 4, modulesMsg (Some [mod_a, mod_b, mod_c])] (newModel ascii))
     = Waiting demo"
  by code_simp

lemma fixViewport_True:
  "fixViewport True m =
     m\<lparr>cursor := (if cursor m < YOffset (viewport m) then YOffset (viewport m)
                  else if cursor m > Height (viewport m) + YOffset (viewport m) - 1
                       then Height (viewport m) + YOffset (viewport m) - 1
                  else cursor m)\<rparr>"
  by (simp add: fixViewport_def Let_def)

lemma Update_scroll_up:
  "\<not> updating m \<Longrightarrow> k \<in> {''pgup'', ''u''} \<Longrightarrow>
   Update L (KeyMsg k) m = Inr (fixViewport True (m\<lparr>viewport := LineUp 1 (viewport m)\<rparr>), None)"
  by auto

lemma Update_scroll_down:
  "\<not> updating m \<Longrightarrow> k \<in> {''pgdown'', ''d''} \<Longrightarrow>
   Update L (KeyMsg k) m = Inr (fixViewport True (m\<lparr>viewport := LineDown 1 (viewport m)\<rparr>), None)"
  by auto

lemma scroll_reconciled:
  "\<exists>c. fixViewport True (m\<lparr>viewport := v\<rparr>) = m\<lparr>viewport := v, cursor := c\<rparr>
     \<and> (cursor m < YOffset v \<longrightarrow> c = YOffset v)
     \<and> (YOffset v \<le> cursor m \<and> cursor m > YOffset v + Height v - 1
           \<longrightarrow> c = YOffset v + Height v - 1)
     \<and> (0 < Height v \<and> cursor m > YOffset v + Height v - 1 \<longrightarrow> c = YOffset v + Height v - 1)
     \<and> (YOffset v \<le> cursor m \<and> cursor m \<le> YOffset v + Height v - 1 \<longrightarrow> c = cursor m)"
  by (rule exI [of _ "if cursor m < YOffset v then YOffset v
                  else if cursor m > Height v + YOffset v - 1 then Height v + YOffset v - 1
                  else cursor m"])
     (simp add: fixViewport_True)

text \<open>
  C6. While no update is running, a \<^verbatim>\<open>"pgup"\<close> or \<^verbatim>\<open>"u"\<close> key replaces the viewport by
  \<^verbatim>\<open>LineUp(1)\<close> of it, a \<^verbatim>\<open>"pgdown"\<close> or \<^verbatim>\<open>"d"\<close> key by \<^verbatim>\<open>LineDown(1)\<close> of it, and
  nothing else changes but the cursor: a cursor below the offset of the scrolled viewport
  \<open>v\<close> becomes that offset, a cursor not below it and above \<open>YOffset v + Height v - 1\<close> becomes
  that last line of the window, and a cursor inside the window stays. The new viewport is
  \<open>v\<close> itself, so the reconciliation scrolls no further. For a window of positive height
  the two outside cases exclude each other, and the second holds as the claim words it.
\<close>

theorem scroll_keys_move_the_cursor_not_the_window:
  "\<not> updating m \<Longrightarrow>
   (k \<in> {''pgup'', ''u''} \<and> v = LineUp 1 (viewport m))
     \<or> (k \<in> {''pgdown'', ''d''} \<and> v = LineDown 1 (viewport m)) \<Longrightarrow>
   \<exists>c. Update L (KeyMsg k) m = Inr (m\<lparr>viewport := v, cursor := c\<rparr>, None)
     \<and> (cursor m < YOffset v \<longrightarrow> c = YOffset v)
     \<and> (YOffset v \<le> cursor m \<and> cursor m > YOffset v + Height v - 1
           \<longrightarrow> c = YOffset v + Height v - 1)
     \<and> (0 < Height v \<and> cursor m > YOffset v + Height v - 1 \<longrightarrow> c = YOffset v + Height v - 1)
     \<and> (YOffset v \<le> cursor m \<and> cursor m \<le> YOffset v + Height v - 1 \<longrightarrow> c = cursor m)"
proof -
  assume idle: "\<not> updating m"
  assume "(k \<in> {''pgup'', ''u''} \<and> v = LineUp 1 (viewport m))
     \<or> (k \<in> {''pgdown'', ''d''} \<and> v = LineDown 1 (viewport m))"
  then have "Update L (KeyMsg k) m = Inr (fixViewport True (m\<lparr>viewport := v\<rparr>), None)"
    using Update_scroll_up [OF idle] Update_scroll_down [OF idle] by blast
  with scroll_reconciled [where m = m and v = v] show ?thesis
    by simp
qed

text \<open>
  In \<open>demo\<close> the cursor is 0 and the window shows lines 0 and 1 of four; \<^verbatim>\<open>"pgdown"\<close>
  scrolls to offset 1 and the cursor, now below the window, becomes 1.
\<close>

theorem scroll_keys_move_the_cursor_not_the_window_witness:
  "\<not> updating demo \<and> LineDown 1 (viewport demo) = (viewport demo)\<lparr>YOffset := 1\<rparr>
   \<and> Update ascii (KeyMsg ''pgdown'') demo
       = Inr (demo\<lparr>viewport := (viewport demo)\<lparr>YOffset := 1\<rparr>, cursor := 1\<rparr>, None)"
proof -
  have idle: "\<not> updating demo"
    by (simp add: demo_def newModel_def)
  have v: "LineDown 1 (viewport demo) = (viewport demo)\<lparr>YOffset := 1\<rparr>"
    by (simp add: demo_def LineDown_def scrollBy_def)
  have c: "cursor demo < YOffset ((viewport demo)\<lparr>YOffset := 1\<rparr>)"
    by (simp add: demo_def newModel_def)
  from scroll_keys_move_the_cursor_not_the_window
         [OF idle, of "''pgdown''" "(viewport demo)\<lparr>YOffset := 1\<rparr>" ascii] v c idle
  show ?thesis by auto
qed

section \<open>Navigation keeps the cursor visible\<close>

lemma split_lines_not_Nil: "split_lines s \<noteq> []"
  by (induction s) (auto split: list.splits)

lemma length_split_lines: "length (split_lines s) = Suc (count_list s (CHR 0x0A))"
  by (induction s) (auto split: list.splits simp add: split_lines_not_Nil)

lemma count_list_app: "count_list (xs @ ys) c = count_list xs c + count_list ys c"
  by (induction xs) auto

lemma content_loop_newlines:
  "content_loop L m i xs b = Inr s \<Longrightarrow>
   count_list b (CHR 0x0A) + length xs \<le> count_list s (CHR 0x0A)"
proof (induction xs arbitrary: i b)
  case Nil
  then show ?case by simp
next
  case (Cons x xs)
  from Cons.prems obtain u where u: "module_Update x = Some u"
    by (auto simp add: Let_def split: option.splits)
  let ?line = "(if cursor m = i then
                 (if updating m then spinner_View L (spinner m)
                  else Foreground L (color m) ''1'' ''>'')
               else '' '')
              @ '' '' @ Path x @ '' ['' @ Version x @ '' -> '' @ Version u
              @ ''] '' @ (if Indirect x then ''// indirect'' else []) @ [CHR 0x0A]"
  from Cons.prems u have "content_loop L m (i + 1) xs (b @ ?line) = Inr s"
    by (simp add: Let_def)
  from Cons.IH [OF this]
  have "count_list (b @ ?line) (CHR 0x0A) + length xs \<le> count_list s (CHR 0x0A)" .
  moreover have "count_list b (CHR 0x0A) + 1 \<le> count_list (b @ ?line) (CHR 0x0A)"
    by (simp only: count_list_app append_assoc [symmetric]) simp
  ultimately show ?case by simp
qed

lemma content_loop_returns:
  "\<forall>x \<in> set xs. module_Update x \<noteq> None \<Longrightarrow> \<exists>s. content_loop L m i xs b = Inr s"
  by (induction xs arbitrary: i b) (auto simp add: Let_def)


lemma View_returns:
  "modules m = Some ms \<Longrightarrow> \<forall>x \<in> set ms. module_Update x \<noteq> None \<Longrightarrow>
   \<exists>s m'. View L m = Inr (s, m')"
proof -
  assume ms: "modules m = Some ms" and upd: "\<forall>x \<in> set ms. module_Update x \<noteq> None"
  from content_loop_returns [OF upd] obtain c
    where "content_loop L m 0 ms (builder m) = Inr c" by blast
  with ms show ?thesis
    by (simp add: View_def content_def Let_def)
qed

lemma View_keeps:
  assumes v: "View L m = Inr (s, m')"
  shows "updating m' = updating m \<and> modules m' = modules m \<and> ready m' = ready m
         \<and> cursor m' = cursor m \<and> spinner m' = spinner m \<and> color m' = color m
         \<and> err m' = err m
         \<and> Height (viewport m') = Height (viewport m)
         \<and> YOffset (viewport m') = YOffset (viewport m)
         \<and> Width (viewport m') = Width (viewport m)"
  using v
  by (auto simp add: View_def content_def Let_def SetContent_def split: if_splits sum.splits)

lemma View_lines:
  assumes v: "View L m = Inr (s, m')" and ms: "modules m = Some ms"
    and le: "length ms \<le> length (lines (viewport m))"
  shows "length ms \<le> length (lines (viewport m'))"
proof (cases "\<not> ready m \<or> len (modules m) = 0")
  case True
  with v ms have "m' = m"
    by (auto simp add: View_def Let_def split: if_splits)
  with le show ?thesis by simp
next
  case False
  with v ms obtain c where c: "content_loop L m 0 ms (builder m) = Inr c"
    and m': "m' = m\<lparr>builder := [], viewport := SetContent c (viewport m)\<rparr>"
    by (auto simp add: View_def content_def Let_def split: if_splits sum.splits)
  from content_loop_newlines [OF c] have "length ms \<le> count_list c (CHR 0x0A)"
    by simp
  with m' show ?thesis
    by (simp add: SetContent_def length_split_lines)
qed

lemma fixCursor_keeps:
  "updating (fixCursor m) = updating m \<and> modules (fixCursor m) = modules m
   \<and> ready (fixCursor m) = ready m \<and> viewport (fixCursor m) = viewport m"
  by (simp add: fixCursor_def)

lemma fixCursor_range:
  "0 < len (modules m) \<Longrightarrow> 0 \<le> cursor (fixCursor m) \<and> cursor (fixCursor m) < len (modules m)"
  by (simp add: fixCursor_def)

lemma fixViewport_False_keeps:
  "updating (fixViewport False m) = updating m \<and> modules (fixViewport False m) = modules m
   \<and> ready (fixViewport False m) = ready m \<and> cursor (fixViewport False m) = cursor m
   \<and> Height (viewport (fixViewport False m)) = Height (viewport m)
   \<and> lines (viewport (fixViewport False m)) = lines (viewport m)"
  by (simp add: fixViewport_def Let_def LineUp_def LineDown_def scrollBy_def)

lemma fixViewport_False_visible:
  assumes c0: "0 \<le> cursor m" and cn: "cursor m < int (length (lines (viewport m)))"
    and h: "0 < Height (viewport m)"
  shows "visible (fixViewport False m)"
proof -
  let ?top = "YOffset (viewport m)"
  let ?bottom = "Height (viewport m) + YOffset (viewport m) - 1"
  consider (above) "cursor m < ?top" | (below) "?top \<le> cursor m" "cursor m > ?bottom"
    | (inside) "?top \<le> cursor m" "cursor m \<le> ?bottom"
    by linarith
  then show ?thesis
  proof cases
    case above
    then have "fixViewport False m = m\<lparr>viewport := LineUp (?top - cursor m) (viewport m)\<rparr>"
      by (simp add: fixViewport_def Let_def)
    then show ?thesis
      using above c0 cn h
      by (simp add: visible_def LineUp_def scrollBy_def max_def min_def)
  next
    case below
    then have "fixViewport False m = m\<lparr>viewport := LineDown (cursor m - ?bottom) (viewport m)\<rparr>"
      by (simp add: fixViewport_def Let_def)
    then show ?thesis
      using below c0 cn h
      by (simp add: visible_def LineDown_def scrollBy_def max_def min_def)
  next
    case inside
    then have "fixViewport False m = m"
      by (simp add: fixViewport_def Let_def)
    with inside show ?thesis
      by (simp add: visible_def)
  qed
qed


lemma Update_navigation:
  "\<not> updating m \<Longrightarrow> k \<in> {''down'', ''j'', ''up'', ''k''} \<Longrightarrow>
   \<exists>d. Update L (KeyMsg k) m = Inr (fixViewport False (fixCursor (m\<lparr>cursor := cursor m + d\<rparr>)), None)"
proof -
  assume idle: "\<not> updating m" and "k \<in> {''down'', ''j'', ''up'', ''k''}"
  then consider "k = ''down''" | "k = ''j''" | "k = ''up''" | "k = ''k''" by blast
  then show ?thesis
  proof cases
    case 1
    with idle have "Update L (KeyMsg k) m
        = Inr (fixViewport False (fixCursor (m\<lparr>cursor := cursor m + 1\<rparr>)), None)"
      by simp
    then show ?thesis by blast
  next
    case 2
    with idle have "Update L (KeyMsg k) m
        = Inr (fixViewport False (fixCursor (m\<lparr>cursor := cursor m + 1\<rparr>)), None)"
      by simp
    then show ?thesis by blast
  next
    case 3
    with idle have "Update L (KeyMsg k) m
        = Inr (fixViewport False (fixCursor (m\<lparr>cursor := cursor m + (- 1)\<rparr>)), None)"
      by simp
    then show ?thesis by blast
  next
    case 4
    with idle have "Update L (KeyMsg k) m
        = Inr (fixViewport False (fixCursor (m\<lparr>cursor := cursor m + (- 1)\<rparr>)), None)"
      by simp
    then show ?thesis by blast
  qed
qed

lemma navigation_step:
  assumes idle: "\<not> updating m" and ms: "modules m = Some ms" and ne: "ms \<noteq> []"
    and h: "0 < Height (viewport m)"
    and le: "length ms \<le> length (lines (viewport m))"
    and k: "k \<in> {''down'', ''j'', ''up'', ''k''}"
  shows "\<exists>m'. Update L (KeyMsg k) m = Inr (m', None) \<and> \<not> updating m' \<and> modules m' = Some ms
           \<and> 0 < Height (viewport m') \<and> length ms \<le> length (lines (viewport m'))
           \<and> visible m'"
proof -
  from Update_navigation [OF idle k] obtain d
    where upd: "Update L (KeyMsg k) m
                  = Inr (fixViewport False (fixCursor (m\<lparr>cursor := cursor m + d\<rparr>)), None)"
    by blast
  let ?m1 = "fixCursor (m\<lparr>cursor := cursor m + d\<rparr>)"
  have keep1: "updating ?m1 = updating m" "modules ?m1 = modules m" "viewport ?m1 = viewport m"
    by (simp_all add: fixCursor_keeps)
  have "0 < len (modules (m\<lparr>cursor := cursor m + d\<rparr>))"
    using ms ne by (simp add: len_def)
  from fixCursor_range [OF this] have range: "0 \<le> cursor ?m1" "cursor ?m1 < int (length ms)"
    using ms by (simp_all add: len_def)
  have "visible (fixViewport False ?m1)"
  proof (rule fixViewport_False_visible)
    show "0 \<le> cursor ?m1" by (rule range)
    show "cursor ?m1 < int (length (lines (viewport ?m1)))"
      using range le keep1 by simp
    show "0 < Height (viewport ?m1)"
      using h keep1 by simp
  qed
  with upd idle ms h le keep1 show ?thesis
    by (simp add: fixViewport_False_keeps)
qed

lemma render_step:
  assumes idle: "\<not> updating m" and ms: "modules m = Some ms"
    and upd: "\<forall>x \<in> set ms. module_Update x \<noteq> None"
    and h: "0 < Height (viewport m)"
    and le: "length ms \<le> length (lines (viewport m))"
    and vis: "visible m"
  shows "\<exists>s m'. View L m = Inr (s, m') \<and> \<not> updating m' \<and> modules m' = Some ms
           \<and> 0 < Height (viewport m') \<and> length ms \<le> length (lines (viewport m'))
           \<and> visible m'"
proof -
  from View_returns [OF ms upd] obtain s m' where v: "View L m = Inr (s, m')"
    by blast
  from View_keeps [OF v] View_lines [OF v ms le] idle ms h vis
  have "\<not> updating m' \<and> modules m' = Some ms
           \<and> 0 < Height (viewport m') \<and> length ms \<le> length (lines (viewport m'))
           \<and> visible m'"
    by (simp add: visible_def)
  with v show ?thesis by blast
qed

text \<open>
  C5 (amended). Take a state in which no update is running, the list is not empty and holds
  only modules with an update (as \<^verbatim>\<open>load\<close> returns them), the viewport has a positive
  height and its content has at least as many lines as the list has modules (every render
  of the list stores such a content). After any non-empty sequence of \<^verbatim>\<open>"down"\<close>,
  \<^verbatim>\<open>"j"\<close>, \<^verbatim>\<open>"up"\<close> and \<^verbatim>\<open>"k"\<close> keys, each followed by its render, the loop is still
  running and the cursor lies in the window: \<open>YOffset \<le> cursor \<le> YOffset + Height - 1\<close>.
\<close>

theorem cursor_visible_after_navigation:
  assumes idle: "\<not> updating m" and ms: "modules m = Some ms" and ne: "ms \<noteq> []"
    and upd: "\<forall>x \<in> set ms. module_Update x \<noteq> None"
    and h: "0 < Height (viewport m)"
    and le: "length ms \<le> length (lines (viewport m))"
    and ks: "ks \<noteq> []" "set ks \<subseteq> {''down'', ''j'', ''up'', ''k''}"
  shows "\<exists>fs m'. run L (map KeyMsg ks) m = (fs, Waiting m')
           \<and> YOffset (viewport m') \<le> cursor m'
           \<and> cursor m' \<le> YOffset (viewport m') + Height (viewport m') - 1"
  using ks idle ms h le
proof (induction ks arbitrary: m)
  case Nil
  then show ?case by simp
next
  case (Cons k ks)
  from Cons.prems have k: "k \<in> {''down'', ''j'', ''up'', ''k''}"
    by simp
  from navigation_step [OF Cons.prems(3) Cons.prems(4) ne Cons.prems(5) Cons.prems(6) k]
  obtain m1 where u: "Update L (KeyMsg k) m = Inr (m1, None)" and i1: "\<not> updating m1"
    and ms1: "modules m1 = Some ms" and h1: "0 < Height (viewport m1)"
    and le1: "length ms \<le> length (lines (viewport m1))" and v1: "visible m1"
    by blast
  from render_step [OF i1 ms1 upd h1 le1 v1]
  obtain s m2 where r: "View L m1 = Inr (s, m2)" and i2: "\<not> updating m2"
    and ms2: "modules m2 = Some ms" and h2: "0 < Height (viewport m2)"
    and le2: "length ms \<le> length (lines (viewport m2))" and v2: "visible m2"
    by blast
  show ?case
  proof (cases "ks = []")
    case True
    with u r v2 show ?thesis
      by (simp add: visible_def)
  next
    case False
    from Cons.prems have "set ks \<subseteq> {''down'', ''j'', ''up'', ''k''}"
      by simp
    from Cons.IH [OF False this i2 ms2 h2 le2]
    obtain fs m' where "run L (map KeyMsg ks) m2 = (fs, Waiting m')"
      and "YOffset (viewport m') \<le> cursor m'"
      and "cursor m' \<le> YOffset (viewport m') + Height (viewport m') - 1"
      by blast
    with u r show ?thesis
      by simp
  qed
qed


text \<open>Four keys from \<open>demo\<close>: the cursor ends on the last module, the window on lines 1 and 2.\<close>

lemma demo_nav:
  "snd (run ascii (map KeyMsg [''down'', ''down'', ''j'', ''up'']) demo)
     = Waiting (demo\<lparr>cursor := 2, viewport := (viewport demo)\<lparr>YOffset := 1,
           lines := [''  a [v1.0.0 -> v1.1.0] '', ''  b [v0.2.0 -> v0.3.0] '',
                    ''> c [v2.0.0 -> v2.0.1] // indirect'', []]\<rparr>\<rparr>)"
  by code_simp

theorem cursor_visible_after_navigation_witness:
  "\<not> updating demo \<and> modules demo = Some [mod_a, mod_b, mod_c] \<and> 0 < Height (viewport demo)
   \<and> (\<exists>fs m'. run ascii (map KeyMsg [''down'', ''down'', ''j'', ''up'']) demo = (fs, Waiting m')
          \<and> YOffset (viewport m') \<le> cursor m'
          \<and> cursor m' \<le> YOffset (viewport m') + Height (viewport m') - 1)"
proof -
  have idle: "\<not> updating demo" and ms: "modules demo = Some [mod_a, mod_b, mod_c]"
    and h: "0 < Height (viewport demo)"
    and le: "length [mod_a, mod_b, mod_c] \<le> length (lines (viewport demo))"
    by (simp_all add: demo_def newModel_def)
  have upd: "\<forall>x \<in> set [mod_a, mod_b, mod_c]. module_Update x \<noteq> None"
    by (simp add: mod_a_def mod_b_def mod_c_def)
  have ks: "[''down'', ''down'', ''j'', ''up''] \<noteq> []"
    "set [''down'', ''down'', ''j'', ''up''] \<subseteq> {''down'', ''j'', ''up'', ''k''}"
    by simp_all
  from cursor_visible_after_navigation [OF idle ms _ upd h le ks, of ascii] idle ms h
  show ?thesis by simp
qed



text \<open>
  Without these conditions the claim fails. In a terminal of two rows the viewport has
  height 0: \<^verbatim>\<open>"down"\<close> on three loaded modules leaves the cursor at 1 and the offset at 2.
  With a loaded, empty list in a terminal of four rows, \<^verbatim>\<open>"up"\<close> leaves the cursor at
  \<open>- 1\<close>, before the window that starts at offset 0.
\<close>

theorem navigation_outside_the_window_counterexample:
  "cursor_and_window
     (snd (run ascii [WindowSizeMsg 80 2, modulesMsg (Some [mod_a, mod_b, mod_c]), KeyMsg ''down'']
             (newModel ascii)))
     = Some (1, 2, 0)
   \<and> cursor_and_window
     (snd (run ascii [WindowSizeMsg 80 4, modulesMsg (Some []), KeyMsg ''up''] (newModel ascii)))
     = Some (- 1, 0, 2)"
  by code_simp

section \<open>The enter key\<close>

text \<open>Where the cursor is a valid index, enter behaves as C1 says.\<close>

lemma enter_starts_the_update:
  "\<not> updating m \<Longrightarrow> modules m = Some ms \<Longrightarrow> 0 \<le> cursor m \<Longrightarrow> cursor m < int (length ms) \<Longrightarrow>
   Update L (KeyMsg ''enter'') m = Inr (m\<lparr>updating := True\<rparr>, Some (updateCmd (ms ! nat (cursor m))))"
  by (simp add: index_def)

lemma enter_while_updating: "updating m \<Longrightarrow> Update L (KeyMsg ''enter'') m = Inr (m, None)"
  by simp


section \<open>Rendering and the state\<close>

lemma content_loop_cong:
  "cursor m' = cursor m \<Longrightarrow> updating m' = updating m \<Longrightarrow> spinner m' = spinner m \<Longrightarrow>
   color m' = color m \<Longrightarrow> content_loop L m' i xs b = content_loop L m i xs b"
proof (induction xs arbitrary: i b)
  case Nil
  show ?case by simp
next
  case (Cons x xs)
  show ?case
  proof (cases "module_Update x")
    case None
    then show ?thesis by (simp add: Let_def)
  next
    case (Some u)
    with Cons show ?thesis by (simp add: Let_def)
  qed
qed

lemma SetContent_twice: "SetContent c (SetContent c v) = SetContent c v"
  by (simp add: SetContent_def)

text \<open>
  C8 (amended). Where the builder is empty, as \<^verbatim>\<open>content\<close> leaves it, and \<^verbatim>\<open>View\<close> returns,
  the state after rendering is the state before with at most the content lines of the
  viewport replaced, and rendering that state again gives the same string and the same
  state.
\<close>

theorem View_sets_only_the_content_and_is_idempotent:
  assumes b: "builder m = []" and v: "View L m = Inr (s, m')"
  shows "(\<exists>ls. m' = m\<lparr>viewport := (viewport m)\<lparr>lines := ls\<rparr>\<rparr>) \<and> View L m' = Inr (s, m')"
proof (cases "\<not> ready m \<or> modules m = None \<or> len (modules m) = 0")
  case True
  with v have "m' = m"
    by (auto simp add: View_def Let_def split: if_splits)
  moreover have "m = m\<lparr>viewport := (viewport m)\<lparr>lines := lines (viewport m)\<rparr>\<rparr>"
    by simp
  ultimately show ?thesis using v by metis
next
  case False
  then obtain ms where ms: "modules m = Some ms" and r: "ready m" and n: "len (modules m) \<noteq> 0"
    by auto
  from v ms r n b obtain c where c: "content_loop L m 0 ms [] = Inr c"
    and m': "m' = m\<lparr>viewport := SetContent c (viewport m)\<rparr>"
    and s: "s = Sprintf_view (''Press enter to update ['' @ itoa (cursor m + 1) @ ''/''
                        @ itoa (len (modules m)) @ '']'')
                 (viewport_View L (SetContent c (viewport m))) ''(press 'q' to quit)''"
    by (auto simp add: View_def content_def Let_def split: if_splits sum.splits)
  have "content_loop L m' 0 ms [] = content_loop L m 0 ms []"
    by (rule content_loop_cong) (simp_all add: m')
  with c have c': "content_loop L m' 0 ms [] = Inr c" by simp
  have "View L m' = Inr (s, m')"
    using c' ms r n b
    by (simp add: View_def content_def Let_def m' s SetContent_twice)
  moreover have "m' = m\<lparr>viewport := (viewport m)\<lparr>lines := split_lines c\<rparr>\<rparr>"
    by (simp add: m' SetContent_def)
  ultimately show ?thesis by blast
qed

lemma loaded_reached:
  "map_sum id fst (Update ascii (modulesMsg (Some [mod_a, mod_b, mod_c]))
     (case snd (run ascii [WindowSizeMsg 80 4] (newModel ascii)) of Waiting m \<Rightarrow> m)) = Inr loaded"
  by code_simp

text \<open>
  Rendering \<open>loaded\<close> stores the three lines of the list in the viewport: the state after
  \<^verbatim>\<open>View\<close> is \<open>demo\<close>, not \<open>loaded\<close>.
\<close>

theorem View_changes_the_state_counterexample:
  "map_sum id snd (View ascii loaded) = Inr demo \<and> demo \<noteq> loaded"
  by code_simp

theorem View_sets_only_the_content_and_is_idempotent_witness:
  "builder loaded = [] \<and> map_sum id snd (View ascii loaded) = Inr demo
   \<and> demo = loaded\<lparr>viewport := (viewport loaded)\<lparr>lines := lines (viewport demo)\<rparr>\<rparr>
   \<and> View ascii demo = View ascii loaded"
proof -
  have b: "builder loaded = []"
    by (simp add: loaded_def demo_def newModel_def)
  have "map_sum id snd (View ascii loaded) = Inr demo"
    by code_simp
  then obtain s where v: "View ascii loaded = Inr (s, demo)"
    by (cases "View ascii loaded") auto
  have d: "demo = loaded\<lparr>viewport := (viewport loaded)\<lparr>lines := lines (viewport demo)\<rparr>\<rparr>"
    by (simp add: loaded_def)
  from View_sets_only_the_content_and_is_idempotent [OF b v] b v d
  show ?thesis by simp
qed


section \<open>Failing tasks\<close>

lemma run_append:
  "run L evs0 m0 = (fs, Waiting m) \<Longrightarrow>
   run L (evs0 @ evs) m0 = (fs @ fst (run L evs m), snd (run L evs m))"
proof (induction evs0 arbitrary: m0 fs)
  case Nil
  then show ?case by simp
next
  case (Cons e evs0)
  from Cons.prems obtain m1 c s m2 fs' where u: "Update L e m0 = Inr (m1, c)"
    and q: "c \<noteq> Some Quit" and v: "View L m1 = Inr (s, m2)"
    and r: "run L evs0 m2 = (fs', Waiting m)" and fs: "fs = s # fs'"
    by (auto split: sum.splits if_splits prod.splits)
  from Cons.IH [OF r] u q v fs show ?case
    by simp
qed

lemma Update_errMsg: "Update L (errMsg e) m = Inr (m\<lparr>err := Some e\<rparr>, Some Quit)"
  by simp

lemma load_error: "load out = (ms, Some e) \<Longrightarrow> ms = None"
  by (auto simp add: load_def split: sum.splits)

lemma load_success: "load out = (ms, None) \<Longrightarrow> ms \<noteq> None"
  by (auto simp add: load_def split: sum.splits)

text \<open>
  C9. A failing listing makes \<^verbatim>\<open>loadCmd\<close> deliver an \<^verbatim>\<open>errMsg\<close>, and a failing
  \<^verbatim>\<open>go get\<close> or a failing reload makes \<^verbatim>\<open>updateCmd\<close> deliver one. \<^verbatim>\<open>Update\<close> stores
  the error of an \<^verbatim>\<open>errMsg\<close> and returns \<^verbatim>\<open>tea.Quit\<close> and no other command. When
  the \<^verbatim>\<open>errMsg\<close> arrives while the loop is running, the loop ends with the frames rendered
  before it and processes none of the later events, and \<^verbatim>\<open>main\<close> prints the error with
  \<^verbatim>\<open>log.Fatalln\<close> and exits with a non-zero status.
\<close>

theorem failing_task_ends_the_session:
  "(load out = (ms, Some e) \<longrightarrow> run_loadCmd out = errMsg e)
   \<and> (module_Update x = Some u \<and> go_get (Path u @ ''@'' @ Version u) = Some e
        \<longrightarrow> run_updateCmd go_get out x = Inr (errMsg e))
   \<and> (module_Update x = Some u \<and> go_get (Path u @ ''@'' @ Version u) = None
        \<and> load out = (ms, Some e) \<longrightarrow> run_updateCmd go_get out x = Inr (errMsg e))
   \<and> Update L (errMsg e) m = Inr (m\<lparr>err := Some e\<rparr>, Some Quit)
   \<and> (run L evs0 (newModel L) = (fs, Waiting m) \<longrightarrow>
        run L (evs0 @ errMsg e # evs) (newModel L) = (fs, Quitted (m\<lparr>err := Some e\<rparr>))
        \<and> main L None (evs0 @ errMsg e # evs) = Some (Fatalln e))
   \<and> printed (Fatalln e) = Some e \<and> exit_status (Fatalln e) \<noteq> 0"
proof -
  have "run L (evs0 @ errMsg e # evs) (newModel L) = (fs, Quitted (m\<lparr>err := Some e\<rparr>))"
    if r: "run L evs0 (newModel L) = (fs, Waiting m)"
    using run_append [OF r, of "errMsg e # evs"] by simp
  then show ?thesis
    by (auto simp add: run_loadCmd_def run_updateCmd_def main_def)
qed


theorem failing_task_ends_the_session_witness:
  "load (Inl ''exit status 1'') = (None, Some ''exit status 1'')
   \<and> run_loadCmd (Inl ''exit status 1'') = errMsg ''exit status 1''
   \<and> snd (run ascii [WindowSizeMsg 80 4] (newModel ascii))
       = Waiting ((newModel ascii)\<lparr>viewport := \<lparr>Width = 80, Height = 2, YOffset = 0, lines = []\<rparr>,
                                   ready := True\<rparr>)
   \<and> main ascii None ([WindowSizeMsg 80 4] @ errMsg ''exit status 1'' # [KeyMsg ''down''])
       = Some (Fatalln ''exit status 1'')"
proof -
  have l: "load (Inl ''exit status 1'') = (None, Some ''exit status 1'')"
    by (simp add: load_def)
  have w: "snd (run ascii [WindowSizeMsg 80 4] (newModel ascii))
       = Waiting ((newModel ascii)\<lparr>viewport := \<lparr>Width = 80, Height = 2, YOffset = 0, lines = []\<rparr>,
                                   ready := True\<rparr>)"
    by code_simp
  then obtain fs where r: "run ascii [WindowSizeMsg 80 4] (newModel ascii)
       = (fs, Waiting ((newModel ascii)\<lparr>viewport := \<lparr>Width = 80, Height = 2, YOffset = 0, lines = []\<rparr>,
                                   ready := True\<rparr>))"
    by (cases "run ascii [WindowSizeMsg 80 4] (newModel ascii)") auto
  from failing_task_ends_the_session
         [of "Inl ''exit status 1''" None "''exit status 1''" mod_a mod_a "\<lambda>a. None" ascii
             "(newModel ascii)\<lparr>viewport := \<lparr>Width = 80, Height = 2, YOffset = 0, lines = []\<rparr>,
                                   ready := True\<rparr>"
             "[WindowSizeMsg 80 4]" fs "[KeyMsg ''down'']"]
       l w r
  show ?thesis by simp
qed

section \<open>The list before and after the first result\<close>

lemma modules_Update_KeyMsg:
  "map_sum id (modules \<circ> fst) (Update L (KeyMsg k) m) = Inr (modules m)
   \<or> Update L (KeyMsg k) m = Inl IndexOutOfRange"
  by (simp add: modules_fixViewport modules_fixCursor index_def split: option.splits)


lemma Update_modules:
  assumes u: "Update L e m0 = Inr (m1, c)" and wf: "from_load e"
  shows "(modules m1 = None) = (modules m0 = None \<and> \<not> carries_list e)"
proof (cases e)
  case (KeyMsg k)
  from modules_Update_KeyMsg [of L k m0] u have "modules m1 = modules m0"
    by (simp add: KeyMsg)
  then show ?thesis by (simp add: KeyMsg carries_list_def)
next
  case (WindowSizeMsg w h)
  from u have "modules m1 = modules m0"
    by (cases "ready m0") (auto simp add: WindowSizeMsg modules_fixViewport)
  then show ?thesis by (simp add: WindowSizeMsg carries_list_def)
next
  case spinner_TickMsg
  with u have "modules m1 = modules m0"
    by (auto split: prod.splits)
  then show ?thesis by (simp add: spinner_TickMsg carries_list_def)
qed (use u wf in \<open>auto simp add: carries_list_def from_load_def\<close>)

lemma View_modules: "View L m = Inr (s, m') \<Longrightarrow> modules m' = modules m"
  by (auto simp add: View_def content_def Let_def SetContent_def split: if_splits sum.splits)

lemma run_modules:
  "\<forall>e \<in> set evs. from_load e \<Longrightarrow> run L evs m0 = (fs, Waiting m) \<Longrightarrow>
   (modules m = None) = (modules m0 = None \<and> \<not> (\<exists>e \<in> set evs. carries_list e))"
proof (induction evs arbitrary: m0 fs)
  case Nil
  then show ?case by simp
next
  case (Cons e evs)
  from Cons.prems(2) obtain m1 c s m2 fs' where u: "Update L e m0 = Inr (m1, c)"
    and v: "View L m1 = Inr (s, m2)" and r: "run L evs m2 = (fs', Waiting m)"
    by (auto split: sum.splits if_splits prod.splits)
  from Cons.prems(1) have wf: "from_load e" and wfs: "\<forall>e \<in> set evs. from_load e"
    by simp_all
  from Cons.IH [OF wfs r] View_modules [OF v] Update_modules [OF u wf]
  show ?case by auto
qed

lemma View_loading:
  "modules m = None \<Longrightarrow>
   View L m = Inr (Sprintf_view (spinner_View L (spinner m) @ '' Loading...'') []
                     ''(press 'q' to quit)'', m)"
  by (simp add: View_def)

lemma View_up_to_date:
  "ready m \<Longrightarrow> modules m = Some [] \<Longrightarrow>
   View L m = Inr (Sprintf_view ''All modules are up-to-date'' [] ''(press 'q' to quit)'', m)"
  by (simp add: View_def len_def)

text \<open>
  C10. The list of a successful \<^verbatim>\<open>load\<close> is not \<^verbatim>\<open>nil\<close>, so neither is the list of a
  \<^verbatim>\<open>modulesMsg\<close> from \<^verbatim>\<open>loadCmd\<close> or of an \<^verbatim>\<open>updatedMsg\<close> from \<^verbatim>\<open>updateCmd\<close>. The
  list of \<^verbatim>\<open>newModel\<close> is \<^verbatim>\<open>nil\<close>, and after the loop has processed any events with such
  lists it is \<^verbatim>\<open>nil\<close> exactly when none of them was a \<^verbatim>\<open>modulesMsg\<close> or an
  \<^verbatim>\<open>updatedMsg\<close>. \<^verbatim>\<open>View\<close> shows the loading header for a \<^verbatim>\<open>nil\<close> list and the
  up-to-date header for an empty list once the window size is known.
\<close>

theorem list_is_nil_until_the_first_result:
  "(load out = (ms, None) \<longrightarrow> ms \<noteq> None)
   \<and> (run_loadCmd out = modulesMsg ms \<longrightarrow> ms \<noteq> None)
   \<and> (run_updateCmd go_get out x = Inr (updatedMsg ms) \<longrightarrow> ms \<noteq> None)
   \<and> modules (newModel L) = None
   \<and> ((\<forall>e \<in> set evs. from_load e) \<and> run L evs (newModel L) = (fs, Waiting m) \<longrightarrow>
        (modules m = None) = (\<not> (\<exists>e \<in> set evs. carries_list e)))
   \<and> (modules m' = None \<longrightarrow>
        View L m' = Inr (Sprintf_view (spinner_View L (spinner m') @ '' Loading...'') []
                          ''(press 'q' to quit)'', m'))
   \<and> (ready m' \<and> modules m' = Some [] \<longrightarrow>
        View L m' = Inr (Sprintf_view ''All modules are up-to-date'' [] ''(press 'q' to quit)'', m'))"
proof -
  have a: "load out = (ms, None) \<longrightarrow> ms \<noteq> None"
    by (auto dest: load_success)
  have b: "run_loadCmd out = modulesMsg ms \<longrightarrow> ms \<noteq> None"
    by (auto simp add: run_loadCmd_def dest: load_success split: prod.splits option.splits)
  have c: "run_updateCmd go_get out x = Inr (updatedMsg ms) \<longrightarrow> ms \<noteq> None"
    by (auto simp add: run_updateCmd_def dest: load_success split: prod.splits option.splits)
  have d: "modules (newModel L) = None"
    by (simp add: newModel_def)
  have e: "(\<forall>e \<in> set evs. from_load e) \<and> run L evs (newModel L) = (fs, Waiting m) \<longrightarrow>
        (modules m = None) = (\<not> (\<exists>e \<in> set evs. carries_list e))"
    using run_modules [of evs L "newModel L" fs m] d by blast
  from a b c d e View_loading [of m' L] View_up_to_date [of m' L] show ?thesis
    by blast
qed


theorem list_is_nil_until_the_first_result_witness:
  "load (Inr []) = (Some [], None)
   \<and> from_load (WindowSizeMsg 80 4) \<and> from_load (modulesMsg (Some []))
   \<and> snd (run ascii [WindowSizeMsg 80 4, modulesMsg (Some [])] (newModel ascii)) = Waiting loaded_none
   \<and> modules loaded_none \<noteq> None \<and> carries_list (modulesMsg (Some []))
   \<and> View ascii loaded_none
       = Inr (Sprintf_view ''All modules are up-to-date'' [] ''(press 'q' to quit)'', loaded_none)"
proof -
  have l: "load (Inr []) = (Some [], None)"
    by (simp add: load_def sort_Slice_def)
  have wf: "from_load (WindowSizeMsg 80 4)" "from_load (modulesMsg (Some []))"
    by (simp_all add: from_load_def)
  have cl: "carries_list (modulesMsg (Some []))"
    by (simp add: carries_list_def)
  have w: "snd (run ascii [WindowSizeMsg 80 4, modulesMsg (Some [])] (newModel ascii))
             = Waiting loaded_none"
    by code_simp
  then obtain fs where r: "run ascii [WindowSizeMsg 80 4, modulesMsg (Some [])] (newModel ascii)
             = (fs, Waiting loaded_none)"
    by (cases "run ascii [WindowSizeMsg 80 4, modulesMsg (Some [])] (newModel ascii)") auto
  have rd: "ready loaded_none \<and> modules loaded_none = Some []"
    by (simp add: loaded_none_def)
  from list_is_nil_until_the_first_result
         [of "Inr []" "Some []" "\<lambda>a. None" mod_a ascii
             "[WindowSizeMsg 80 4, modulesMsg (Some [])]" fs loaded_none loaded_none]
       l wf cl w r rd
  show ?thesis by simp
qed


end
